theory Spec2Isabelle
  imports Main "HOL-Library.Word" "HOL-Library.Monad_Syntax"
begin

unbundle bit_operations_syntax

section \<open>The XDP load balancer of \<^verbatim>\<open>src/ebpf/xdp_lb.c\<close>\<close>

text \<open>
  A shallow embedding of the program \<^verbatim>\<open>xdp_load_balancer\<close> and of its helper
  \<^verbatim>\<open>hash\<close>. The packet is the byte sequence between \<^verbatim>\<open>ctx->data\<close> and
  \<^verbatim>\<open>ctx->data_end\<close>; the two BPF array maps are lists of their values; every access
  to packet memory is checked, and an access outside the packet (or a division by
  zero) makes the whole run \<open>None\<close>. The trace written by \<^verbatim>\<open>bpf_printk\<close> is part
  of the result.
\<close>

subsection \<open>Machine types and constants\<close>

type_synonym u8 = "8 word"
type_synonym u16 = "16 word"
type_synonym u32 = "32 word"

text \<open>\<^verbatim>\<open>#define MAX_BACKENDS 8\<close>\<close>

definition MAX_BACKENDS :: nat where
  "MAX_BACKENDS = 8"

text \<open>
  The constants and layouts of \<^verbatim>\<open><linux/if_ether.h>\<close>, \<^verbatim>\<open><linux/ip.h>\<close> and
  \<^verbatim>\<open><linux/bpf.h>\<close>, which the program includes: \<^verbatim>\<open>struct ethhdr\<close> is
  \<^verbatim>\<open>h_dest[6]\<close>, \<^verbatim>\<open>h_source[6]\<close>, \<^verbatim>\<open>h_proto\<close> (14 bytes); \<^verbatim>\<open>struct iphdr\<close> has
  \<^verbatim>\<open>check\<close> at offset 10, \<^verbatim>\<open>saddr\<close> at 12 and \<^verbatim>\<open>daddr\<close> at 16 (20 bytes).
\<close>

definition ETH_P_IP :: u16 where
  "ETH_P_IP = 0x0800"

definition ETH_HLEN :: nat where
  "ETH_HLEN = 14"

definition IPHDR_LEN :: nat where
  "IPHDR_LEN = 20"

definition OFF_h_dest :: nat where
  "OFF_h_dest = 0"

definition OFF_h_proto :: nat where
  "OFF_h_proto = 12"

definition OFF_check :: nat where
  "OFF_check = ETH_HLEN + 10"

definition OFF_saddr :: nat where
  "OFF_saddr = ETH_HLEN + 12"

definition OFF_daddr :: nat where
  "OFF_daddr = ETH_HLEN + 16"

datatype xdp_action = XDP_ABORTED | XDP_DROP | XDP_PASS | XDP_TX | XDP_REDIRECT

subsection \<open>Packet memory\<close>

text \<open>
  Loads and stores on the packet, little-endian as on the usual BPF target. An access
  that does not lie inside the buffer is \<open>None\<close>.
\<close>

definition load_bytes :: "u8 list \<Rightarrow> nat \<Rightarrow> nat \<Rightarrow> u8 list option" where
  "load_bytes mem off n =
     (if off + n \<le> length mem then Some (take n (drop off mem)) else None)"

definition store_bytes :: "u8 list \<Rightarrow> nat \<Rightarrow> u8 list \<Rightarrow> u8 list option" where
  "store_bytes mem off bs =
     (if off + length bs \<le> length mem
      then Some (take off mem @ bs @ drop (off + length bs) mem)
      else None)"

definition u16_of_le :: "u8 \<Rightarrow> u8 \<Rightarrow> u16" where
  "u16_of_le b0 b1 = ucast b0 OR push_bit 8 (ucast b1)"

definition u32_of_le :: "u8 \<Rightarrow> u8 \<Rightarrow> u8 \<Rightarrow> u8 \<Rightarrow> u32" where
  "u32_of_le b0 b1 b2 b3 =
     ucast b0 OR push_bit 8 (ucast b1) OR push_bit 16 (ucast b2) OR push_bit 24 (ucast b3)"

definition le_of_u32 :: "u32 \<Rightarrow> u8 list" where
  "le_of_u32 w = [ucast w, ucast (drop_bit 8 w), ucast (drop_bit 16 w), ucast (drop_bit 24 w)]"

definition load16 :: "u8 list \<Rightarrow> nat \<Rightarrow> u16 option" where
  "load16 mem off =
     (if off + 2 \<le> length mem then Some (u16_of_le (mem ! off) (mem ! (off + 1))) else None)"

definition load32 :: "u8 list \<Rightarrow> nat \<Rightarrow> u32 option" where
  "load32 mem off =
     (if off + 4 \<le> length mem
      then Some (u32_of_le (mem ! off) (mem ! (off + 1)) (mem ! (off + 2)) (mem ! (off + 3)))
      else None)"

definition store32 :: "u8 list \<Rightarrow> nat \<Rightarrow> u32 \<Rightarrow> u8 list option" where
  "store32 mem off w = store_bytes mem off (le_of_u32 w)"

text \<open>\<^verbatim>\<open>__constant_htons\<close> on a little-endian target swaps the two bytes.\<close>

definition htons :: "u16 \<Rightarrow> u16" where
  "htons x = push_bit 8 x OR drop_bit 8 x"

text \<open>The \<^verbatim>\<open>%\<close> of C on unsigned operands; a zero divisor is a fault.\<close>

definition umod :: "u32 \<Rightarrow> u32 \<Rightarrow> u32 option" where
  "umod a b = (if b = 0 then None else Some (a mod b))"

subsection \<open>Backends and maps\<close>

text \<open>
  \<^verbatim>\<open>struct backend { __u32 ip; __u8 mac[6]; }\<close>: the array of six bytes is a
  six-tuple, \<open>mac_bytes\<close> lists it in memory order.
\<close>

type_synonym mac6 = "u8 \<times> u8 \<times> u8 \<times> u8 \<times> u8 \<times> u8"

record backend =
  ip :: u32
  mac :: mac6

fun mac_bytes :: "mac6 \<Rightarrow> u8 list" where
  "mac_bytes (m0, m1, m2, m3, m4, m5) = [m0, m1, m2, m3, m4, m5]"

text \<open>
  The two maps, both of type \<^verbatim>\<open>BPF_MAP_TYPE_ARRAY\<close>: \<^verbatim>\<open>backends\<close> is declared with
  \<^verbatim>\<open>max_entries = MAX_BACKENDS\<close>, \<^verbatim>\<open>backend_count\<close> with \<^verbatim>\<open>max_entries = 1\<close>. An array
  map is the list of its values, as long as its \<^verbatim>\<open>max_entries\<close>.
\<close>

record maps =
  backends :: "backend list"
  backend_count :: "u32 list"

definition maps_declared :: "maps \<Rightarrow> bool" where
  "maps_declared m \<longleftrightarrow>
     length (backends m) = MAX_BACKENDS \<and> length (backend_count m) = 1"

text \<open>
  The kernel helper \<^verbatim>\<open>bpf_map_lookup_elem\<close> on an array map: a pointer to the value
  at the key, \<^verbatim>\<open>NULL\<close> when the key is not below \<^verbatim>\<open>max_entries\<close>.
\<close>

definition bpf_map_lookup_elem :: "'v list \<Rightarrow> u32 \<Rightarrow> 'v option" where
  "bpf_map_lookup_elem arr key =
     (if unat key < length arr then Some (arr ! unat key) else None)"

subsection \<open>The selection hash\<close>

definition hash :: "u32 \<Rightarrow> u32" where
  "hash a0 =
     (let a1 = a0 XOR drop_bit 16 a0;
          a2 = a1 * 0x7feb352d;
          a3 = a2 XOR drop_bit 15 a2;
          a4 = a3 * 0x846ca68b;
          a5 = a4 XOR drop_bit 16 a4
      in a5)"

subsection \<open>The XDP entry function\<close>

text \<open>The lines written by \<^verbatim>\<open>bpf_printk\<close>, in the order of the source.\<close>

datatype log_event =
    LogIPv4 u32 u32
  | LogNoBackends
  | LogLookupFailed u32
  | LogForwarding u32

type_synonym xdp_result = "xdp_action \<times> u8 list \<times> log_event list"

definition xdp_load_balancer :: "maps \<Rightarrow> u8 list \<Rightarrow> xdp_result option" where
  "xdp_load_balancer m pkt =
     (if ETH_HLEN > length pkt then Some (XDP_PASS, pkt, [])
      else do {
        h_proto \<leftarrow> load16 pkt OFF_h_proto;
        if h_proto \<noteq> htons ETH_P_IP then Some (XDP_PASS, pkt, [])
        else if ETH_HLEN + IPHDR_LEN > length pkt then Some (XDP_PASS, pkt, [])
        else do {
          saddr \<leftarrow> load32 pkt OFF_saddr;
          daddr \<leftarrow> load32 pkt OFF_daddr;
          (case bpf_map_lookup_elem (backend_count m) 0 of
             None \<Rightarrow> Some (XDP_PASS, pkt, [LogIPv4 saddr daddr, LogNoBackends])
           | Some count \<Rightarrow>
               if count = 0
               then Some (XDP_PASS, pkt, [LogIPv4 saddr daddr, LogNoBackends])
               else do {
                 src \<leftarrow> load32 pkt OFF_saddr;
                 idx \<leftarrow> umod (hash src) count;
                 (case bpf_map_lookup_elem (backends m) idx of
                    None \<Rightarrow> Some (XDP_PASS, pkt, [LogIPv4 saddr daddr, LogLookupFailed idx])
                  | Some b \<Rightarrow> do {
                      pkt1 \<leftarrow> store32 pkt OFF_daddr (ip b);
                      pkt2 \<leftarrow> store_bytes pkt1 OFF_h_dest (mac_bytes (mac b));
                      Some (XDP_TX, pkt2, [LogIPv4 saddr daddr, LogForwarding idx])
                    })
               })
        }
      })"

text \<open>
  The inverse of the hash, step by step in reverse: the xor-shift by 16 is its own
  inverse, the xor-shift by 15 is undone by two further shifts, and each odd constant
  has a multiplicative inverse modulo \<open>2 ^ 32\<close>.
\<close>

definition unhash :: "u32 \<Rightarrow> u32" where
  "unhash h0 =
     (let h1 = h0 XOR drop_bit 16 h0;
          h2 = h1 * 0x43021123;
          h3 = h2 XOR drop_bit 15 h2 XOR drop_bit 30 h2;
          h4 = h3 * 0x1d69e2a5;
          h5 = h4 XOR drop_bit 16 h4
      in h5)"

subsection \<open>Classification and rewrite in closed form\<close>

text \<open>
  A frame is accepted by the two bounds checks and the protocol check exactly when it
  holds an Ethernet header and a minimal IPv4 header and its protocol field, in network
  byte order, is \<open>0x0800\<close>.
\<close>

definition wf_ipv4 :: "u8 list \<Rightarrow> bool" where
  "wf_ipv4 pkt \<longleftrightarrow>
     ETH_HLEN + IPHDR_LEN \<le> length pkt \<and> take 2 (drop OFF_h_proto pkt) = [0x08, 0x00]"

text \<open>The buffer after the two stores of the rewrite, written out.\<close>

definition rewrite_dest :: "u8 list \<Rightarrow> backend \<Rightarrow> u8 list" where
  "rewrite_dest pkt b =
     mac_bytes (mac b) @ take 24 (drop 6 pkt) @ le_of_u32 (ip b) @ drop 34 pkt"

text \<open>The backend index that a trace names, if any.\<close>

fun logged_index :: "log_event \<Rightarrow> u32 option" where
  "logged_index (LogLookupFailed idx) = Some idx"
| "logged_index (LogForwarding idx) = Some idx"
| "logged_index (LogIPv4 s d) = None"
| "logged_index LogNoBackends = None"

fun first_index :: "log_event list \<Rightarrow> u32 option" where
  "first_index [] = None"
| "first_index (e # es) = (case logged_index e of Some idx \<Rightarrow> Some idx | None \<Rightarrow> first_index es)"

subsection \<open>The control plane\<close>

text \<open>
  Modelled from the spec: \<^verbatim>\<open>BackendTable.replace\<close>, the operation of the control plane
  that fills the two maps. The program only declares the maps and reads them; the
  writer is not among the sources. Following the spec, \<open>replace\<close> fails with
  \<open>CapacityExceeded\<close> when given more than 8 entries, may fail with \<open>InvalidEntry\<close>
  (what makes an entry invalid is left open, so it is the parameter \<open>valid\<close>), and
  otherwise installs the entries from index 0 and sets the active count to their
  number; the slots from the count on keep their stale values. The result is the error,
  if any, and the table after the call.
\<close>

datatype table_error = CapacityExceeded | InvalidEntry

definition replace ::
  "(backend \<Rightarrow> bool) \<Rightarrow> backend list \<Rightarrow> maps \<Rightarrow> table_error option \<times> maps" where
  "replace valid entries tbl =
     (if MAX_BACKENDS < length entries then (Some CapacityExceeded, tbl)
      else if \<not> list_all valid entries then (Some InvalidEntry, tbl)
      else (None, tbl\<lparr>backends := entries @ drop (length entries) (backends tbl),
                       backend_count := [of_nat (length entries)]\<rparr>))"

subsection \<open>Test data\<close>

text \<open>
  The example of the spec: two backends \<open>10.0.0.1\<close> and \<open>10.0.0.2\<close> in an
  eight-slot table, and a frame from \<open>192.168.1.5\<close> with two bytes of payload.
\<close>

definition example_backends :: "backend list" where
  "example_backends =
     [\<lparr>ip = 0x0100000A, mac = (0xAA, 0xBB, 0xCC, 0xDD, 0xEE, 0x01)\<rparr>,
      \<lparr>ip = 0x0200000A, mac = (0xAA, 0xBB, 0xCC, 0xDD, 0xEE, 0x02)\<rparr>,
      \<lparr>ip = 0, mac = (0, 0, 0, 0, 0, 0)\<rparr>,
      \<lparr>ip = 0, mac = (0, 0, 0, 0, 0, 0)\<rparr>,
      \<lparr>ip = 0, mac = (0, 0, 0, 0, 0, 0)\<rparr>,
      \<lparr>ip = 0, mac = (0, 0, 0, 0, 0, 0)\<rparr>,
      \<lparr>ip = 0, mac = (0, 0, 0, 0, 0, 0)\<rparr>,
      \<lparr>ip = 0, mac = (0, 0, 0, 0, 0, 0)\<rparr>]"

definition example_maps :: maps where
  "example_maps = \<lparr>backends = example_backends, backend_count = [2]\<rparr>"

definition empty_maps :: maps where
  "empty_maps = \<lparr>backends = example_backends, backend_count = [0]\<rparr>"

definition overcount_maps :: maps where
  "overcount_maps = \<lparr>backends = example_backends, backend_count = [9]\<rparr>"

definition example_packet :: "u8 list" where
  "example_packet =
     [0x11, 0x22, 0x33, 0x44, 0x55, 0x66, 0x02, 0x00, 0x00, 0x00, 0x00, 0x09, 0x08, 0x00,
      0x45, 0x00, 0x00, 0x16, 0x12, 0x34, 0x00, 0x00, 0x40, 0x11, 0xA6, 0x2B,
      0xC0, 0xA8, 0x01, 0x05, 0x0A, 0x00, 0x00, 0x64,
      0xDE, 0xAD]"

definition example_rewritten :: "u8 list" where
  "example_rewritten =
     [0xAA, 0xBB, 0xCC, 0xDD, 0xEE, 0x02, 0x02, 0x00, 0x00, 0x00, 0x00, 0x09, 0x08, 0x00,
      0x45, 0x00, 0x00, 0x16, 0x12, 0x34, 0x00, 0x00, 0x40, 0x11, 0xA6, 0x2B,
      0xC0, 0xA8, 0x01, 0x05, 0x0A, 0x00, 0x00, 0x02,
      0xDE, 0xAD]"

definition other_packet :: "u8 list" where
  "other_packet =
     [0x11, 0x22, 0x33, 0x44, 0x55, 0x66, 0x02, 0x00, 0x00, 0x00, 0x00, 0x07, 0x08, 0x00,
      0x45, 0x00, 0x00, 0x14, 0x00, 0x01, 0x00, 0x00, 0x20, 0x06, 0x00, 0x00,
      0xC0, 0xA8, 0x01, 0x05, 0x0A, 0x00, 0x00, 0x63]"

definition arp_packet :: "u8 list" where
  "arp_packet =
     [0xFF, 0xFF, 0xFF, 0xFF, 0xFF, 0xFF, 0x02, 0x00, 0x00, 0x00, 0x00, 0x09, 0x08, 0x06,
      0x00, 0x01, 0x08, 0x00, 0x06, 0x04, 0x00, 0x01, 0x02, 0x00, 0x00, 0x00, 0x00, 0x09,
      0xC0, 0xA8, 0x01, 0x05, 0x00, 0x00, 0x00, 0x00, 0x00, 0x00, 0x0A, 0x00, 0x00, 0x01]"

section \<open>Properties\<close>

subsection \<open>The hash is a bijection\<close>

lemma xorshift16_involution:
  "(a XOR drop_bit 16 a) XOR drop_bit 16 (a XOR drop_bit 16 a) = (a :: u32)"
  by (simp add: ac_simps)

lemma xorshift15_inverse:
  "(a XOR drop_bit 15 a) XOR drop_bit 15 (a XOR drop_bit 15 a)
     XOR drop_bit 30 (a XOR drop_bit 15 a) = (a :: u32)"
  by (simp add: ac_simps)

lemma xorshift15_inverse':
  "(a XOR drop_bit 15 a XOR drop_bit 30 a) XOR drop_bit 15 (a XOR drop_bit 15 a XOR drop_bit 30 a)
     = (a :: u32)"
  by (simp add: ac_simps)

lemma mul_7feb352d_inverse: "(a * 0x7feb352d) * 0x1d69e2a5 = (a :: u32)"
proof -
  have "(0x7feb352d * 0x1d69e2a5 :: u32) = 1" by simp
  then have "a * (0x7feb352d * 0x1d69e2a5) = a" by (simp only: mult_1_right)
  then show ?thesis by (simp only: mult.assoc)
qed

lemma mul_1d69e2a5_inverse: "(a * 0x1d69e2a5) * 0x7feb352d = (a :: u32)"
proof -
  have "(0x1d69e2a5 * 0x7feb352d :: u32) = 1" by simp
  then have "a * (0x1d69e2a5 * 0x7feb352d) = a" by (simp only: mult_1_right)
  then show ?thesis by (simp only: mult.assoc)
qed

lemma mul_846ca68b_inverse: "(a * 0x846ca68b) * 0x43021123 = (a :: u32)"
proof -
  have "(0x846ca68b * 0x43021123 :: u32) = 1" by simp
  then have "a * (0x846ca68b * 0x43021123) = a" by (simp only: mult_1_right)
  then show ?thesis by (simp only: mult.assoc)
qed

lemma mul_43021123_inverse: "(a * 0x43021123) * 0x846ca68b = (a :: u32)"
proof -
  have "(0x43021123 * 0x846ca68b :: u32) = 1" by simp
  then have "a * (0x43021123 * 0x846ca68b) = a" by (simp only: mult_1_right)
  then show ?thesis by (simp only: mult.assoc)
qed

lemma unhash_hash: "unhash (hash a) = a"
  unfolding hash_def unhash_def Let_def
  by (simp only: xorshift16_involution mul_846ca68b_inverse xorshift15_inverse
      mul_7feb352d_inverse)

lemma hash_unhash: "hash (unhash h) = h"
  unfolding hash_def unhash_def Let_def
  by (simp only: xorshift16_involution mul_1d69e2a5_inverse xorshift15_inverse'
      mul_43021123_inverse)

text \<open>
  Claim C10. The selection hash is a bijection on the 32-bit unsigned integers: every
  xor-shift step and every multiplication by one of the odd constants is invertible
  modulo \<open>2 ^ 32\<close>, so distinct source addresses have distinct digests.
\<close>

theorem hash_bijective: "bij hash"
proof (rule bijI)
  show "inj hash"
  proof (rule injI)
    fix x y :: u32
    assume "hash x = hash y"
    then have "unhash (hash x) = unhash (hash y)" by simp
    then show "x = y" by (simp only: unhash_hash)
  qed
  show "surj hash"
  proof (rule surjI)
    fix h
    show "hash (unhash h) = h" by (rule hash_unhash)
  qed
qed

subsection \<open>Bytes and words\<close>

lemma u32_le_roundtrip:
  "u32_of_le (ucast w) (ucast (drop_bit 8 w)) (ucast (drop_bit 16 w)) (ucast (drop_bit 24 w)) = w"
  unfolding u32_of_le_def
proof (rule bit_word_eqI)
  fix n :: nat
  assume "n < LENGTH(32)"
  then have n: "n < 32" by simp
  consider "n < 8" | "8 \<le> n" "n < 16" | "16 \<le> n" "n < 24" | "24 \<le> n" "n < 32"
    using n by linarith
  then show "bit (ucast (ucast w :: u8) OR push_bit 8 (ucast (ucast (drop_bit 8 w) :: u8)) OR
        push_bit 16 (ucast (ucast (drop_bit 16 w) :: u8)) OR
        push_bit 24 (ucast (ucast (drop_bit 24 w) :: u8)) :: u32) n = bit w n"
    by cases (auto simp add: bit_simps)
qed

lemma htons_ETH_P_IP: "htons ETH_P_IP = 8"
  by (simp add: htons_def ETH_P_IP_def)

lemma u16_of_le_eq_8: "u16_of_le a b = 8 \<longleftrightarrow> a = 8 \<and> b = 0"
proof
  assume h: "u16_of_le a b = 8"
  have a: "a = ucast (u16_of_le a b)"
    unfolding u16_of_le_def by (rule bit_word_eqI) (auto simp add: bit_simps dest: bit_imp_le_length)
  have b: "b = ucast (drop_bit 8 (u16_of_le a b))"
    unfolding u16_of_le_def by (rule bit_word_eqI) (auto simp add: bit_simps dest: bit_imp_le_length)
  from a b show "a = 8 \<and> b = 0" unfolding h by simp
next
  assume "a = 8 \<and> b = 0"
  then show "u16_of_le a b = 8" by (simp add: u16_of_le_def)
qed

lemma take2_drop12:
  "14 \<le> length pkt \<Longrightarrow> take 2 (drop 12 pkt) = [pkt ! 12, pkt ! 13]"
  by (simp add: list_eq_iff_nth_eq nth_Cons' less_Suc_eq numeral_2_eq_2)


lemma length_mac_bytes: "length (mac_bytes x) = 6"
  by (cases x rule: prod_cases6) simp

lemma length_le_of_u32: "length (le_of_u32 w) = 4"
  by (simp add: le_of_u32_def)

lemma h_proto_check:
  assumes "ETH_HLEN \<le> length pkt"
  shows "load16 pkt OFF_h_proto = Some (htons ETH_P_IP) \<longleftrightarrow>
         take 2 (drop OFF_h_proto pkt) = [0x08, 0x00]"
  using assms
  by (simp add: load16_def OFF_h_proto_def ETH_HLEN_def htons_ETH_P_IP u16_of_le_eq_8
      take2_drop12)

lemma load16_h_proto_Some:
  "ETH_HLEN \<le> length pkt \<Longrightarrow> \<exists>p. load16 pkt OFF_h_proto = Some p"
  by (simp add: load16_def OFF_h_proto_def ETH_HLEN_def)

lemma xdp_not_ipv4:
  assumes "\<not> wf_ipv4 pkt"
  shows "xdp_load_balancer m pkt = Some (XDP_PASS, pkt, [])"
proof (cases "ETH_HLEN > length pkt")
  case True
  then show ?thesis by (simp add: xdp_load_balancer_def)
next
  case False
  then have len: "ETH_HLEN \<le> length pkt" by simp
  obtain p where p: "load16 pkt OFF_h_proto = Some p"
    using load16_h_proto_Some [OF len] by blast
  show ?thesis
  proof (cases "p = htons ETH_P_IP")
    case True
    with p h_proto_check [OF len] assms have "ETH_HLEN + IPHDR_LEN > length pkt"
      by (simp add: wf_ipv4_def)
    with True p len show ?thesis by (simp add: xdp_load_balancer_def)
  next
    case False
    with p len show ?thesis by (simp add: xdp_load_balancer_def)
  qed
qed

lemma stores_rewrite:
  assumes "34 \<le> length pkt"
  shows "Option.bind (store32 pkt OFF_daddr (ip b))
           (\<lambda>pkt1. Option.bind (store_bytes pkt1 OFF_h_dest (mac_bytes (mac b))) f)
         = f (rewrite_dest pkt b)"
proof -
  have 1: "store32 pkt OFF_daddr (ip b) = Some (take 30 pkt @ le_of_u32 (ip b) @ drop 34 pkt)"
    using assms
    by (simp add: store32_def store_bytes_def OFF_daddr_def ETH_HLEN_def length_le_of_u32)
  have 2: "store_bytes (take 30 pkt @ le_of_u32 (ip b) @ drop 34 pkt) OFF_h_dest
             (mac_bytes (mac b)) = Some (rewrite_dest pkt b)"
    using assms
    by (simp add: store_bytes_def OFF_h_dest_def length_mac_bytes length_le_of_u32
        rewrite_dest_def drop_take)
  show ?thesis by (simp add: 1 2)
qed

lemma xdp_ipv4:
  assumes "wf_ipv4 pkt"
  shows "\<exists>s d. load32 pkt OFF_saddr = Some s \<and> load32 pkt OFF_daddr = Some d \<and>
           xdp_load_balancer m pkt =
             (case bpf_map_lookup_elem (backend_count m) 0 of
                None \<Rightarrow> Some (XDP_PASS, pkt, [LogIPv4 s d, LogNoBackends])
              | Some count \<Rightarrow>
                  if count = 0 then Some (XDP_PASS, pkt, [LogIPv4 s d, LogNoBackends])
                  else (case bpf_map_lookup_elem (backends m) (hash s mod count) of
                          None \<Rightarrow> Some (XDP_PASS, pkt,
                                    [LogIPv4 s d, LogLookupFailed (hash s mod count)])
                        | Some b \<Rightarrow> Some (XDP_TX, rewrite_dest pkt b,
                                    [LogIPv4 s d, LogForwarding (hash s mod count)])))"
proof -
  from assms have len: "34 \<le> length pkt" and len14: "ETH_HLEN \<le> length pkt"
    and proto: "take 2 (drop OFF_h_proto pkt) = [0x08, 0x00]"
    by (simp_all add: wf_ipv4_def ETH_HLEN_def IPHDR_LEN_def)
  from proto h_proto_check [OF len14]
  have p: "load16 pkt OFF_h_proto = Some (htons ETH_P_IP)" by simp
  obtain s where s: "load32 pkt OFF_saddr = Some s"
    using len by (simp add: load32_def OFF_saddr_def ETH_HLEN_def)
  obtain d where d: "load32 pkt OFF_daddr = Some d"
    using len by (simp add: load32_def OFF_daddr_def ETH_HLEN_def)
  have "xdp_load_balancer m pkt =
             (case bpf_map_lookup_elem (backend_count m) 0 of
                None \<Rightarrow> Some (XDP_PASS, pkt, [LogIPv4 s d, LogNoBackends])
              | Some count \<Rightarrow>
                  if count = 0 then Some (XDP_PASS, pkt, [LogIPv4 s d, LogNoBackends])
                  else (case bpf_map_lookup_elem (backends m) (hash s mod count) of
                          None \<Rightarrow> Some (XDP_PASS, pkt,
                                    [LogIPv4 s d, LogLookupFailed (hash s mod count)])
                        | Some b \<Rightarrow> Some (XDP_TX, rewrite_dest pkt b,
                                    [LogIPv4 s d, LogForwarding (hash s mod count)])))"
    using len p s d
    by (simp add: xdp_load_balancer_def ETH_HLEN_def IPHDR_LEN_def umod_def
        stores_rewrite split: option.split)
  with s d show ?thesis by blast
qed

subsection \<open>The rewritten buffer\<close>

lemma length_rewrite_dest:
  "34 \<le> length pkt \<Longrightarrow> length (rewrite_dest pkt b) = length pkt"
  by (simp add: rewrite_dest_def length_mac_bytes length_le_of_u32)

lemma rewrite_dest_mac:
  "load_bytes (rewrite_dest pkt b) OFF_h_dest 6 = Some (mac_bytes (mac b))"
  by (simp add: load_bytes_def rewrite_dest_def OFF_h_dest_def length_mac_bytes)

lemma rewrite_dest_nth_daddr:
  assumes "34 \<le> length pkt" and "k < 4"
  shows "rewrite_dest pkt b ! (30 + k) = le_of_u32 (ip b) ! k"
  using assms
  by (simp add: rewrite_dest_def nth_append length_mac_bytes length_le_of_u32)

lemma rewrite_dest_daddr:
  assumes "34 \<le> length pkt"
  shows "load32 (rewrite_dest pkt b) OFF_daddr = Some (ip b)"
proof -
  have n: "rewrite_dest pkt b ! 30 = le_of_u32 (ip b) ! 0"
    "rewrite_dest pkt b ! 31 = le_of_u32 (ip b) ! 1"
    "rewrite_dest pkt b ! 32 = le_of_u32 (ip b) ! 2"
    "rewrite_dest pkt b ! 33 = le_of_u32 (ip b) ! 3"
    using rewrite_dest_nth_daddr [OF assms, of 0 b] rewrite_dest_nth_daddr [OF assms, of 1 b]
      rewrite_dest_nth_daddr [OF assms, of 2 b] rewrite_dest_nth_daddr [OF assms, of 3 b]
    by simp_all
  show ?thesis
    using assms
    by (simp add: load32_def OFF_daddr_def ETH_HLEN_def length_rewrite_dest n)
       (simp add: le_of_u32_def u32_le_roundtrip)
qed

lemma rewrite_dest_other:
  assumes "34 \<le> length pkt" and "i < length pkt" and "6 \<le> i" and "i < 30 \<or> 34 \<le> i"
  shows "rewrite_dest pkt b ! i = pkt ! i"
proof (cases "i < 30")
  case True
  with assms have "i - 6 < 24" by linarith
  with assms True show ?thesis
    by (simp add: rewrite_dest_def nth_append length_mac_bytes)
next
  case False
  with assms have i: "34 \<le> i" by simp
  let ?front = "mac_bytes (mac b) @ take 24 (drop 6 pkt) @ le_of_u32 (ip b)"
  have front: "length ?front = 34"
    using assms by (simp add: length_mac_bytes length_le_of_u32)
  have "rewrite_dest pkt b = ?front @ drop 34 pkt"
    by (simp add: rewrite_dest_def)
  then have "rewrite_dest pkt b ! i = drop 34 pkt ! (i - 34)"
    using i front by (simp only: nth_append) simp
  also have "\<dots> = pkt ! (34 + (i - 34))"
    using assms by simp
  finally show ?thesis using i by simp
qed

lemma take2_drop:
  "n + 2 \<le> length xs \<Longrightarrow> take 2 (drop n xs) = [xs ! n, xs ! Suc n]"
  by (simp add: list_eq_iff_nth_eq nth_Cons' less_Suc_eq numeral_2_eq_2)

lemma rewrite_dest_check:
  assumes "34 \<le> length pkt"
  shows "load_bytes (rewrite_dest pkt b) OFF_check 2 = load_bytes pkt OFF_check 2"
proof -
  have "rewrite_dest pkt b ! 24 = pkt ! 24" "rewrite_dest pkt b ! Suc 24 = pkt ! Suc 24"
    using assms rewrite_dest_other [of pkt 24 b] rewrite_dest_other [of pkt "Suc 24" b]
    by simp_all
  then have "take 2 (drop 24 (rewrite_dest pkt b)) = take 2 (drop 24 pkt)"
    using assms by (simp only: take2_drop length_rewrite_dest)
  with assms show ?thesis
    by (simp add: load_bytes_def OFF_check_def ETH_HLEN_def length_rewrite_dest)
qed

subsection \<open>The decisions of the entry function\<close>

lemma xdp_TX_wf: "xdp_load_balancer m pkt = Some (XDP_TX, pkt', log) \<Longrightarrow> wf_ipv4 pkt"
  using xdp_not_ipv4 [of pkt m] by auto

text \<open>
  Claim C1. Whenever the program returns \<open>XDP_TX\<close>, the IPv4 destination address of
  the resulting buffer is the address of the selected backend (the entry of \<open>backends\<close>
  at \<open>hash saddr mod count\<close>), its first six bytes are that backend's MAC address, the
  buffer has kept its length, and every byte outside these two fields, the IPv4
  checksum among them, is what it was before the call.
\<close>

theorem transmit_rewrites_destination:
  assumes "xdp_load_balancer m pkt = Some (XDP_TX, pkt', log)"
  shows "\<exists>src count b.
      load32 pkt OFF_saddr = Some src \<and>
      bpf_map_lookup_elem (backend_count m) 0 = Some count \<and>
      bpf_map_lookup_elem (backends m) (hash src mod count) = Some b \<and>
      load32 pkt' OFF_daddr = Some (ip b) \<and>
      load_bytes pkt' OFF_h_dest 6 = Some (mac_bytes (mac b)) \<and>
      length pkt' = length pkt \<and>
      (\<forall>i < length pkt. 6 \<le> i \<and> (i < OFF_daddr \<or> OFF_daddr + 4 \<le> i) \<longrightarrow> pkt' ! i = pkt ! i) \<and>
      load_bytes pkt' OFF_check 2 = load_bytes pkt OFF_check 2"
proof -
  have wf: "wf_ipv4 pkt" using assms by (rule xdp_TX_wf)
  then have len: "34 \<le> length pkt"
    by (simp add: wf_ipv4_def ETH_HLEN_def IPHDR_LEN_def)
  from xdp_ipv4 [OF wf, of m] assms
  obtain s count b where s: "load32 pkt OFF_saddr = Some s"
    and c: "bpf_map_lookup_elem (backend_count m) 0 = Some count"
    and b: "bpf_map_lookup_elem (backends m) (hash s mod count) = Some b"
    and p: "pkt' = rewrite_dest pkt b"
    by (auto split: option.splits if_splits)
  have other: "\<forall>i < length pkt. 6 \<le> i \<and> (i < OFF_daddr \<or> OFF_daddr + 4 \<le> i) \<longrightarrow> pkt' ! i = pkt ! i"
    unfolding p using len by (simp add: OFF_daddr_def ETH_HLEN_def rewrite_dest_other)
  show ?thesis
    using s c b other len unfolding p
    by (simp add: rewrite_dest_daddr rewrite_dest_mac length_rewrite_dest rewrite_dest_check)
qed

theorem transmit_rewrites_destination_witness:
  "xdp_load_balancer example_maps example_packet =
     Some (XDP_TX, example_rewritten, [LogIPv4 0x0501A8C0 0x6400000A, LogForwarding 1]) \<and>
   load32 example_rewritten OFF_daddr = Some 0x0200000A \<and>
   load_bytes example_rewritten OFF_h_dest 6 = Some [0xAA, 0xBB, 0xCC, 0xDD, 0xEE, 0x02] \<and>
   length example_rewritten = length example_packet \<and>
   example_rewritten ! 24 = example_packet ! 24 \<and>
   load_bytes example_rewritten OFF_check 2 = load_bytes example_packet OFF_check 2"
proof -
  have run: "xdp_load_balancer example_maps example_packet =
     Some (XDP_TX, example_rewritten, [LogIPv4 0x0501A8C0 0x6400000A, LogForwarding 1])"
    by code_simp
  have s: "load32 example_packet OFF_saddr = Some 0x0501A8C0" by code_simp
  have c: "bpf_map_lookup_elem (backend_count example_maps) 0 = Some 2" by code_simp
  have b: "bpf_map_lookup_elem (backends example_maps) (hash 0x0501A8C0 mod 2) =
      Some \<lparr>ip = 0x0200000A, mac = (0xAA, 0xBB, 0xCC, 0xDD, 0xEE, 0x02)\<rparr>" by code_simp
  have l: "(24::nat) < length example_packet" by code_simp
  have o: "(24::nat) < OFF_daddr" by code_simp
  from transmit_rewrites_destination [OF run] s c b l o
  show ?thesis using run by auto
qed


text \<open>
  Claim C2. A buffer shorter than an Ethernet header, or whose protocol field is not
  \<open>0x0800\<close>, or shorter than an Ethernet header and a minimal IPv4 header, is passed
  (\<open>XDP_PASS\<close>) with every byte unchanged.
\<close>

theorem reject_passes_unchanged:
  assumes "length pkt < ETH_HLEN \<or> take 2 (drop OFF_h_proto pkt) \<noteq> [0x08, 0x00] \<or>
           length pkt < ETH_HLEN + IPHDR_LEN"
  shows "xdp_load_balancer m pkt = Some (XDP_PASS, pkt, [])"
proof -
  from assms have "\<not> wf_ipv4 pkt"
    by (auto simp add: wf_ipv4_def)
  then show ?thesis by (rule xdp_not_ipv4)
qed

theorem reject_passes_unchanged_witness:
  "take 2 (drop OFF_h_proto arp_packet) \<noteq> [0x08, 0x00] \<and>
   xdp_load_balancer example_maps arp_packet = Some (XDP_PASS, arp_packet, []) \<and>
   length (take 33 example_packet) < ETH_HLEN + IPHDR_LEN \<and>
   xdp_load_balancer example_maps (take 33 example_packet) =
     Some (XDP_PASS, take 33 example_packet, []) \<and>
   length (take 13 example_packet) < ETH_HLEN \<and>
   xdp_load_balancer example_maps (take 13 example_packet) =
     Some (XDP_PASS, take 13 example_packet, [])"
proof -
  have a: "take 2 (drop OFF_h_proto arp_packet) \<noteq> [0x08, 0x00]" by code_simp
  have b: "length (take 33 example_packet) < ETH_HLEN + IPHDR_LEN" by code_simp
  have c: "length (take 13 example_packet) < ETH_HLEN" by code_simp
  show ?thesis
    using a b c reject_passes_unchanged [of arp_packet example_maps]
      reject_passes_unchanged [of "take 33 example_packet" example_maps]
      reject_passes_unchanged [of "take 13 example_packet" example_maps]
    by blast
qed

lemma word_ge_1_nonzero: "1 \<le> (c :: u32) \<Longrightarrow> c \<noteq> 0"
  by auto

text \<open>
  Claim C3. For a well-formed IPv4 packet and a table whose count is at least 1, the
  key the program looks up in \<open>backends\<close> is \<open>hash saddr mod count\<close>: the run passes
  exactly when the lookup of that key fails, and otherwise transmits the packet
  rewritten to the backend stored at that key, naming the same index in its trace.
  Any other well-formed packet with the same source address, run against the same
  maps, is decided by the lookup of the same key and rewritten to the same backend.
\<close>

theorem selection_by_hash_mod_count:
  assumes "wf_ipv4 pkt" and "load32 pkt OFF_saddr = Some src"
    and "bpf_map_lookup_elem (backend_count m) 0 = Some count" and "1 \<le> count"
  shows "(\<exists>d. load32 pkt OFF_daddr = Some d \<and>
           (case bpf_map_lookup_elem (backends m) (hash src mod count) of
              None \<Rightarrow>
                xdp_load_balancer m pkt =
                  Some (XDP_PASS, pkt, [LogIPv4 src d, LogLookupFailed (hash src mod count)])
            | Some b \<Rightarrow>
                xdp_load_balancer m pkt =
                  Some (XDP_TX, rewrite_dest pkt b,
                        [LogIPv4 src d, LogForwarding (hash src mod count)]) \<and>
                load32 (rewrite_dest pkt b) OFF_daddr = Some (ip b) \<and>
                load_bytes (rewrite_dest pkt b) OFF_h_dest 6 = Some (mac_bytes (mac b)))) \<and>
         (\<forall>pkt2. wf_ipv4 pkt2 \<and> load32 pkt2 OFF_saddr = Some src \<longrightarrow>
            (\<exists>d2. load32 pkt2 OFF_daddr = Some d2 \<and>
               (case bpf_map_lookup_elem (backends m) (hash src mod count) of
                  None \<Rightarrow>
                    xdp_load_balancer m pkt2 =
                      Some (XDP_PASS, pkt2, [LogIPv4 src d2, LogLookupFailed (hash src mod count)])
                | Some b \<Rightarrow>
                    xdp_load_balancer m pkt2 =
                      Some (XDP_TX, rewrite_dest pkt2 b,
                            [LogIPv4 src d2, LogForwarding (hash src mod count)]) \<and>
                    load32 (rewrite_dest pkt2 b) OFF_daddr = Some (ip b) \<and>
                    load_bytes (rewrite_dest pkt2 b) OFF_h_dest 6 = Some (mac_bytes (mac b)))))"
proof -
  from assms(4) have nz: "count \<noteq> 0" by (rule word_ge_1_nonzero)
  have run: "\<exists>d. load32 p OFF_daddr = Some d \<and>
           (case bpf_map_lookup_elem (backends m) (hash src mod count) of
              None \<Rightarrow>
                xdp_load_balancer m p =
                  Some (XDP_PASS, p, [LogIPv4 src d, LogLookupFailed (hash src mod count)])
            | Some b \<Rightarrow>
                xdp_load_balancer m p =
                  Some (XDP_TX, rewrite_dest p b,
                        [LogIPv4 src d, LogForwarding (hash src mod count)]) \<and>
                load32 (rewrite_dest p b) OFF_daddr = Some (ip b) \<and>
                load_bytes (rewrite_dest p b) OFF_h_dest 6 = Some (mac_bytes (mac b)))"
    if wf: "wf_ipv4 p" and src: "load32 p OFF_saddr = Some src" for p
  proof -
    from wf have len: "34 \<le> length p"
      by (simp add: wf_ipv4_def ETH_HLEN_def IPHDR_LEN_def)
    from xdp_ipv4 [OF wf, of m] src assms(3) nz len show ?thesis
      by (auto simp add: rewrite_dest_daddr rewrite_dest_mac split: option.splits)
  qed
  from run [OF assms(1,2)] run show ?thesis by blast
qed

theorem selection_by_hash_mod_count_witness:
  "wf_ipv4 example_packet \<and> wf_ipv4 other_packet \<and>
   load32 example_packet OFF_saddr = Some 0x0501A8C0 \<and>
   load32 other_packet OFF_saddr = Some 0x0501A8C0 \<and>
   bpf_map_lookup_elem (backend_count example_maps) 0 = Some 2 \<and>
   hash 0x0501A8C0 mod 2 = 1 \<and>
   bpf_map_lookup_elem (backends example_maps) 1 =
     Some \<lparr>ip = 0x0200000A, mac = (0xAA, 0xBB, 0xCC, 0xDD, 0xEE, 0x02)\<rparr> \<and>
   (\<exists>d. xdp_load_balancer example_maps example_packet =
      Some (XDP_TX,
            rewrite_dest example_packet \<lparr>ip = 0x0200000A, mac = (0xAA, 0xBB, 0xCC, 0xDD, 0xEE, 0x02)\<rparr>,
            [LogIPv4 0x0501A8C0 d, LogForwarding 1])) \<and>
   (\<exists>d2. xdp_load_balancer example_maps other_packet =
      Some (XDP_TX,
            rewrite_dest other_packet \<lparr>ip = 0x0200000A, mac = (0xAA, 0xBB, 0xCC, 0xDD, 0xEE, 0x02)\<rparr>,
            [LogIPv4 0x0501A8C0 d2, LogForwarding 1])) \<and>
   load32 (rewrite_dest other_packet \<lparr>ip = 0x0200000A, mac = (0xAA, 0xBB, 0xCC, 0xDD, 0xEE, 0x02)\<rparr>)
     OFF_daddr = Some 0x0200000A"
proof -
  have w: "wf_ipv4 example_packet" by code_simp
  have w2: "wf_ipv4 other_packet" by code_simp
  have s: "load32 example_packet OFF_saddr = Some 0x0501A8C0" by code_simp
  have s2: "load32 other_packet OFF_saddr = Some 0x0501A8C0" by code_simp
  have c: "bpf_map_lookup_elem (backend_count example_maps) 0 = Some 2" by code_simp
  have g: "(1 :: u32) \<le> 2" by simp
  have h: "hash 0x0501A8C0 mod 2 = 1" by code_simp
  have b: "bpf_map_lookup_elem (backends example_maps) 1 =
     Some \<lparr>ip = 0x0200000A, mac = (0xAA, 0xBB, 0xCC, 0xDD, 0xEE, 0x02)\<rparr>" by code_simp
  from selection_by_hash_mod_count [OF w s c g] w w2 s s2 c
  show ?thesis unfolding h b by auto
qed

text \<open>
  Claim C4. For a well-formed IPv4 packet, when the backend count is zero or the count
  entry is absent, the program returns \<open>XDP_PASS\<close> and the buffer is unchanged.
\<close>

theorem no_backends_passes:
  assumes "wf_ipv4 pkt"
    and "bpf_map_lookup_elem (backend_count m) 0 = None \<or>
         bpf_map_lookup_elem (backend_count m) 0 = Some 0"
  shows "\<exists>log. xdp_load_balancer m pkt = Some (XDP_PASS, pkt, log)"
  using xdp_ipv4 [OF assms(1), of m] assms(2) by auto

theorem no_backends_passes_witness:
  "wf_ipv4 example_packet \<and>
   bpf_map_lookup_elem (backend_count empty_maps) 0 = Some 0 \<and>
   (\<exists>log. xdp_load_balancer empty_maps example_packet = Some (XDP_PASS, example_packet, log)) \<and>
   bpf_map_lookup_elem (backend_count (empty_maps\<lparr>backend_count := []\<rparr>)) 0 = None \<and>
   (\<exists>log. xdp_load_balancer (empty_maps\<lparr>backend_count := []\<rparr>) example_packet =
      Some (XDP_PASS, example_packet, log))"
proof -
  have w: "wf_ipv4 example_packet" by code_simp
  have c: "bpf_map_lookup_elem (backend_count empty_maps) 0 = Some 0" by code_simp
  have n: "bpf_map_lookup_elem (backend_count (empty_maps\<lparr>backend_count := []\<rparr>)) 0 = None"
    by (simp add: bpf_map_lookup_elem_def)
  show ?thesis
    using w c n no_backends_passes [OF w disjI2, OF c]
      no_backends_passes [OF w disjI1, OF n]
    by blast
qed

subsection \<open>Lookups in the array maps\<close>

lemma lookup_None_iff:
  "bpf_map_lookup_elem arr key = None \<longleftrightarrow> length arr \<le> unat key"
  by (simp add: bpf_map_lookup_elem_def)

text \<open>
  Claim C5, as stated, fails: the lookup in the \<open>backends\<close> map does not compare the
  index with the active count. With a count of 2, the lookup of index 5 succeeds and
  yields the unused slot.
\<close>

theorem lookup_within_count_counterexample:
  "bpf_map_lookup_elem (backend_count example_maps) 0 = Some 2 \<and> (2 :: u32) \<le> 5 \<and>
   bpf_map_lookup_elem (backends example_maps) 5 = Some \<lparr>ip = 0, mac = (0, 0, 0, 0, 0, 0)\<rparr>"
  by code_simp

text \<open>
  Claim C5, amended. With the maps as declared, the lookup of an index in \<open>backends\<close>
  fails exactly when the index is at least \<open>MAX_BACKENDS\<close>, whatever the active count.
  The index the program looks up is \<open>hash saddr mod count\<close>, which is below the count,
  and when that lookup fails the program returns \<open>XDP_PASS\<close> with the buffer unchanged.
\<close>

theorem lookup_fails_beyond_capacity:
  assumes "maps_declared m"
  shows "(bpf_map_lookup_elem (backends m) idx = None \<longleftrightarrow> MAX_BACKENDS \<le> unat idx) \<and>
         (\<forall>pkt src count.
            wf_ipv4 pkt \<and> load32 pkt OFF_saddr = Some src \<and>
            bpf_map_lookup_elem (backend_count m) 0 = Some count \<and> count \<noteq> 0 \<and>
            bpf_map_lookup_elem (backends m) (hash src mod count) = None \<longrightarrow>
            hash src mod count < count \<and>
            (\<exists>log. xdp_load_balancer m pkt = Some (XDP_PASS, pkt, log)))"
proof -
  have 1: "bpf_map_lookup_elem (backends m) idx = None \<longleftrightarrow> MAX_BACKENDS \<le> unat idx"
    using assms by (simp add: lookup_None_iff maps_declared_def)
  have 2: "hash src mod count < count \<and>
           (\<exists>log. xdp_load_balancer m pkt = Some (XDP_PASS, pkt, log))"
    if "wf_ipv4 pkt" and "load32 pkt OFF_saddr = Some src"
      and "bpf_map_lookup_elem (backend_count m) 0 = Some count" and "count \<noteq> 0"
      and "bpf_map_lookup_elem (backends m) (hash src mod count) = None"
    for pkt src count
  proof -
    from that(4) have "0 < count" by (simp add: word_gt_0)
    then have lt: "hash src mod count < count" by (rule word_mod_less_divisor)
    from xdp_ipv4 [OF that(1), of m] that(2-5) lt show ?thesis by auto
  qed
  from 1 2 show ?thesis by blast
qed

theorem lookup_fails_beyond_capacity_witness:
  "maps_declared overcount_maps \<and> wf_ipv4 example_packet \<and>
   bpf_map_lookup_elem (backends overcount_maps) 8 = None \<and>
   hash 0x0501A8C0 mod 9 = 8 \<and>
   (\<exists>log. xdp_load_balancer overcount_maps example_packet = Some (XDP_PASS, example_packet, log))"
proof -
  have d: "maps_declared overcount_maps" by code_simp
  have w: "wf_ipv4 example_packet" by code_simp
  have s: "load32 example_packet OFF_saddr = Some 0x0501A8C0" by code_simp
  have t: "load32 example_packet OFF_daddr = Some 0x6400000A" by code_simp
  have c: "bpf_map_lookup_elem (backend_count overcount_maps) 0 = Some 9" by code_simp
  have z: "(9 :: u32) \<noteq> 0" by simp
  have h: "hash 0x0501A8C0 mod 9 = 8" by code_simp
  have n: "bpf_map_lookup_elem (backends overcount_maps) (hash 0x0501A8C0 mod 9) = None"
    by code_simp
  from lookup_fails_beyond_capacity [OF d, of 8] w s c z n
  have "\<exists>log. xdp_load_balancer overcount_maps example_packet = Some (XDP_PASS, example_packet, log)"
    and "bpf_map_lookup_elem (backends overcount_maps) 8 = None \<longleftrightarrow> MAX_BACKENDS \<le> unat (8 :: u32)"
    by blast+
  then show ?thesis using d w h by (simp add: MAX_BACKENDS_def)
qed


subsection \<open>Replacing the table\<close>

lemma unat_of_nat_small: "n \<le> MAX_BACKENDS \<Longrightarrow> unat (of_nat n :: u32) = n"
  by (simp add: MAX_BACKENDS_def unat_of_nat)

text \<open>
  Claim C6. \<open>replace\<close> with more than 8 entries fails with \<open>CapacityExceeded\<close> and the
  table after the call is the table before it; when \<open>replace\<close> succeeds, the active
  count read by the program is the number of entries installed, and the lookup of each
  index below it yields the entry installed there.
\<close>

theorem replace_capacity:
  "(MAX_BACKENDS < length entries \<longrightarrow> replace valid entries tbl = (Some CapacityExceeded, tbl)) \<and>
   (fst (replace valid entries tbl) = None \<longrightarrow>
      length entries \<le> MAX_BACKENDS \<and>
      (\<exists>count. bpf_map_lookup_elem (backend_count (snd (replace valid entries tbl))) 0 = Some count \<and>
         unat count = length entries) \<and>
      (\<forall>i < length entries.
         bpf_map_lookup_elem (backends (snd (replace valid entries tbl))) (of_nat i) =
           Some (entries ! i)))"
proof -
  have ok: "unat (of_nat i :: u32) = i" if "i < length entries" "length entries \<le> MAX_BACKENDS" for i
    using that unat_of_nat_small [of i] by simp
  show ?thesis
    by (auto simp add: replace_def bpf_map_lookup_elem_def unat_of_nat_small ok nth_append
        split: if_splits)
qed

theorem replace_capacity_witness:
  "MAX_BACKENDS < length (example_backends @ [\<lparr>ip = 1, mac = (0, 0, 0, 0, 0, 1)\<rparr>]) \<and>
   replace (\<lambda>b. True) (example_backends @ [\<lparr>ip = 1, mac = (0, 0, 0, 0, 0, 1)\<rparr>]) empty_maps =
     (Some CapacityExceeded, empty_maps) \<and>
   fst (replace (\<lambda>b. True) (take 2 example_backends) empty_maps) = None \<and>
   bpf_map_lookup_elem (backend_count (snd (replace (\<lambda>b. True) (take 2 example_backends) empty_maps))) 0
     = Some 2 \<and>
   bpf_map_lookup_elem (backends (snd (replace (\<lambda>b. True) (take 2 example_backends) empty_maps))) 1
     = Some \<lparr>ip = 0x0200000A, mac = (0xAA, 0xBB, 0xCC, 0xDD, 0xEE, 0x02)\<rparr>"
proof -
  have a: "MAX_BACKENDS < length (example_backends @ [\<lparr>ip = 1, mac = (0, 0, 0, 0, 0, 1)\<rparr>])"
    by code_simp
  have b: "fst (replace (\<lambda>b. True) (take 2 example_backends) empty_maps) = None"
    by code_simp
  have c: "bpf_map_lookup_elem (backend_count (snd (replace (\<lambda>b. True) (take 2 example_backends) empty_maps))) 0
     = Some 2" by code_simp
  have d: "bpf_map_lookup_elem (backends (snd (replace (\<lambda>b. True) (take 2 example_backends) empty_maps))) 1
     = Some \<lparr>ip = 0x0200000A, mac = (0xAA, 0xBB, 0xCC, 0xDD, 0xEE, 0x02)\<rparr>" by code_simp
  from replace_capacity [of "example_backends @ [\<lparr>ip = 1, mac = (0, 0, 0, 0, 0, 1)\<rparr>]"
      "\<lambda>b. True" empty_maps] a
  have "replace (\<lambda>b. True) (example_backends @ [\<lparr>ip = 1, mac = (0, 0, 0, 0, 0, 1)\<rparr>]) empty_maps =
     (Some CapacityExceeded, empty_maps)" by blast
  moreover from replace_capacity [of "take 2 example_backends" "\<lambda>b. True" empty_maps] b
  have "length (take 2 example_backends) \<le> MAX_BACKENDS" by blast
  ultimately show ?thesis using a b c d by blast
qed


subsection \<open>Totality and bounds\<close>

lemma xdp_total_cases:
  "(\<exists>log. xdp_load_balancer m pkt = Some (XDP_PASS, pkt, log)) \<or>
   (\<exists>src count b log. wf_ipv4 pkt \<and> load32 pkt OFF_saddr = Some src \<and>
      bpf_map_lookup_elem (backend_count m) 0 = Some count \<and> count \<noteq> 0 \<and>
      bpf_map_lookup_elem (backends m) (hash src mod count) = Some b \<and>
      xdp_load_balancer m pkt = Some (XDP_TX, rewrite_dest pkt b, log) \<and>
      first_index log = Some (hash src mod count))"
proof (cases "wf_ipv4 pkt")
  case False
  then show ?thesis using xdp_not_ipv4 [of pkt m] by simp
next
  case True
  from xdp_ipv4 [OF True, of m] show ?thesis
    using True by (auto split: option.splits if_splits)
qed

text \<open>
  Claim C7. On every buffer and every state of the maps the program returns, and its
  decision is \<open>XDP_PASS\<close> or \<open>XDP_TX\<close>, never \<open>XDP_DROP\<close>; a malformed frame, an
  absent or zero count and a failed backend lookup each end in \<open>XDP_PASS\<close> with the
  buffer unchanged.
\<close>

theorem decision_pass_or_transmit:
  "\<exists>act pkt' log. xdp_load_balancer m pkt = Some (act, pkt', log) \<and>
     (act = XDP_PASS \<or> act = XDP_TX) \<and> act \<noteq> XDP_DROP \<and>
     ((\<not> wf_ipv4 pkt \<or>
       bpf_map_lookup_elem (backend_count m) 0 = None \<or>
       bpf_map_lookup_elem (backend_count m) 0 = Some 0 \<or>
       (\<exists>src count. load32 pkt OFF_saddr = Some src \<and>
          bpf_map_lookup_elem (backend_count m) 0 = Some count \<and>
          bpf_map_lookup_elem (backends m) (hash src mod count) = None))
      \<longrightarrow> act = XDP_PASS \<and> pkt' = pkt)"
  using xdp_total_cases [of m pkt] by auto

theorem decision_pass_or_transmit_witness:
  "\<not> wf_ipv4 arp_packet \<and>
   (\<exists>log. xdp_load_balancer example_maps arp_packet = Some (XDP_PASS, arp_packet, log)) \<and>
   bpf_map_lookup_elem (backend_count empty_maps) 0 = Some 0 \<and>
   (\<exists>log. xdp_load_balancer empty_maps example_packet = Some (XDP_PASS, example_packet, log)) \<and>
   load32 example_packet OFF_saddr = Some 0x0501A8C0 \<and>
   bpf_map_lookup_elem (backend_count overcount_maps) 0 = Some 9 \<and>
   bpf_map_lookup_elem (backends overcount_maps) (hash 0x0501A8C0 mod 9) = None \<and>
   (\<exists>log. xdp_load_balancer overcount_maps example_packet = Some (XDP_PASS, example_packet, log))"
proof -
  have a: "\<not> wf_ipv4 arp_packet" by code_simp
  have z: "bpf_map_lookup_elem (backend_count empty_maps) 0 = Some 0" by code_simp
  have s: "load32 example_packet OFF_saddr = Some 0x0501A8C0" by code_simp
  have c: "bpf_map_lookup_elem (backend_count overcount_maps) 0 = Some 9" by code_simp
  have n: "bpf_map_lookup_elem (backends overcount_maps) (hash 0x0501A8C0 mod 9) = None"
    by code_simp
  have 1: "\<exists>log. xdp_load_balancer example_maps arp_packet = Some (XDP_PASS, arp_packet, log)"
    using decision_pass_or_transmit [of example_maps arp_packet] a by auto
  have 2: "\<exists>log. xdp_load_balancer empty_maps example_packet = Some (XDP_PASS, example_packet, log)"
    using decision_pass_or_transmit [of empty_maps example_packet] z by auto
  have 3: "\<exists>log. xdp_load_balancer overcount_maps example_packet = Some (XDP_PASS, example_packet, log)"
    using decision_pass_or_transmit [of overcount_maps example_packet] s c n by auto
  from a z s c n 1 2 3 show ?thesis by blast
qed

text \<open>
  Claim C9. With the maps as declared and any stored count, counts above the capacity
  included, no run performs an access outside the packet buffer (the run is never
  \<open>None\<close>), a run that transmits has used a backend index below \<open>MAX_BACKENDS\<close>, and
  when the selected index \<open>hash saddr mod count\<close> is \<open>MAX_BACKENDS\<close> or more the backend
  lookup fails and the program returns \<open>XDP_PASS\<close> with the buffer unchanged.
\<close>

theorem accesses_in_bounds:
  assumes "maps_declared m"
  shows "(\<exists>r. xdp_load_balancer m pkt = Some r) \<and>
         (\<forall>pkt' log. xdp_load_balancer m pkt = Some (XDP_TX, pkt', log) \<longrightarrow>
            (\<exists>idx. first_index log = Some idx \<and> unat idx < MAX_BACKENDS)) \<and>
         (\<forall>src count.
            wf_ipv4 pkt \<and> load32 pkt OFF_saddr = Some src \<and>
            bpf_map_lookup_elem (backend_count m) 0 = Some count \<and> count \<noteq> 0 \<and>
            MAX_BACKENDS \<le> unat (hash src mod count) \<longrightarrow>
            bpf_map_lookup_elem (backends m) (hash src mod count) = None \<and>
            (\<exists>log. xdp_load_balancer m pkt = Some (XDP_PASS, pkt, log)))"
proof -
  have len: "length (backends m) = MAX_BACKENDS"
    using assms by (simp add: maps_declared_def)
  have 1: "\<exists>r. xdp_load_balancer m pkt = Some r"
    using xdp_total_cases [of m pkt] by auto
  have 2: "\<exists>idx. first_index log = Some idx \<and> unat idx < MAX_BACKENDS"
    if "xdp_load_balancer m pkt = Some (XDP_TX, pkt', log)" for pkt' log
  proof -
    from xdp_total_cases [of m pkt] that
    obtain src count b where "bpf_map_lookup_elem (backends m) (hash src mod count) = Some b"
      and "first_index log = Some (hash src mod count)"
      by auto
    then show ?thesis
      using len by (auto simp add: bpf_map_lookup_elem_def split: if_splits)
  qed
  have 3: "bpf_map_lookup_elem (backends m) (hash src mod count) = None \<and>
            (\<exists>log. xdp_load_balancer m pkt = Some (XDP_PASS, pkt, log))"
    if "wf_ipv4 pkt" and "load32 pkt OFF_saddr = Some src"
      and "bpf_map_lookup_elem (backend_count m) 0 = Some count" and "count \<noteq> 0"
      and "MAX_BACKENDS \<le> unat (hash src mod count)" for src count
  proof -
    have n: "bpf_map_lookup_elem (backends m) (hash src mod count) = None"
      using that(5) len by (simp add: lookup_None_iff)
    from xdp_ipv4 [OF that(1), of m] that(2-4) n show ?thesis by auto
  qed
  from 1 2 3 show ?thesis by blast
qed

theorem accesses_in_bounds_witness:
  "maps_declared overcount_maps \<and> maps_declared example_maps \<and>
   wf_ipv4 example_packet \<and> load32 example_packet OFF_saddr = Some 0x0501A8C0 \<and>
   bpf_map_lookup_elem (backend_count overcount_maps) 0 = Some 9 \<and>
   MAX_BACKENDS \<le> unat (hash 0x0501A8C0 mod 9) \<and>
   bpf_map_lookup_elem (backends overcount_maps) (hash 0x0501A8C0 mod 9) = None \<and>
   (\<exists>log. xdp_load_balancer overcount_maps example_packet = Some (XDP_PASS, example_packet, log)) \<and>
   xdp_load_balancer example_maps example_packet =
     Some (XDP_TX, example_rewritten, [LogIPv4 0x0501A8C0 0x6400000A, LogForwarding 1]) \<and>
   (\<exists>idx. first_index [LogIPv4 0x0501A8C0 0x6400000A, LogForwarding 1] = Some idx \<and>
      unat idx < MAX_BACKENDS)"
proof -
  have d: "maps_declared overcount_maps" by code_simp
  have d2: "maps_declared example_maps" by code_simp
  have w: "wf_ipv4 example_packet" by code_simp
  have s: "load32 example_packet OFF_saddr = Some 0x0501A8C0" by code_simp
  have c: "bpf_map_lookup_elem (backend_count overcount_maps) 0 = Some 9" by code_simp
  have z: "(9 :: u32) \<noteq> 0" by simp
  have g: "MAX_BACKENDS \<le> unat (hash 0x0501A8C0 mod 9)" by code_simp
  have run: "xdp_load_balancer example_maps example_packet =
     Some (XDP_TX, example_rewritten, [LogIPv4 0x0501A8C0 0x6400000A, LogForwarding 1])"
    by code_simp
  from accesses_in_bounds [OF d, of example_packet] w s c z g
  have 1: "bpf_map_lookup_elem (backends overcount_maps) (hash 0x0501A8C0 mod 9) = None \<and>
     (\<exists>log. xdp_load_balancer overcount_maps example_packet = Some (XDP_PASS, example_packet, log))"
    by blast
  from accesses_in_bounds [OF d2, of example_packet] run
  have 2: "\<exists>idx. first_index [LogIPv4 0x0501A8C0 0x6400000A, LogForwarding 1] = Some idx \<and>
      unat idx < MAX_BACKENDS"
    by blast
  from d d2 w s c g run 1 2 show ?thesis by blast
qed

end
